theory Spec2Isabelle
  imports Main "HOL-Library.Sublist"
begin

section \<open>Values\<close>

text \<open>
  The source's type alias \<open>_Raw = Union[bool, Dict[_Raw, _Raw], List[_Raw], str, None]\<close>:
  the shapes a variable's value, a branch's \<open>matches\<close> and a rendered value can take.
  A Python dict keeps insertion order and has one entry per key, so it is an association
  list that is only ever extended through \<open>od_set\<close>.
\<close>

datatype raw =
    RNone
  | RBool bool
  | RStr string
  | RList "raw list"
  | RDict "(raw \<times> raw) list"

text \<open>\<open>d[k] = v\<close> on an insertion-ordered dict: an existing key keeps its position.\<close>

fun od_set :: "'k \<Rightarrow> 'v \<Rightarrow> ('k \<times> 'v) list \<Rightarrow> ('k \<times> 'v) list" where
  "od_set k v [] = [(k, v)]"
| "od_set k v ((k', v') # d) = (if k' = k then (k', v) # d else (k', v') # od_set k v d)"

text \<open>\<open>d.update(e)\<close>: the entries of \<open>e\<close> are stored one after the other.\<close>

definition od_update :: "('k \<times> 'v) list \<Rightarrow> ('k \<times> 'v) list \<Rightarrow> ('k \<times> 'v) list" where
  "od_update d e = foldl (\<lambda>acc kv. od_set (fst kv) (snd kv) acc) d e"

text \<open>The flat context \<open>cookiecutter_dict\<close>: an \<open>OrderedDict\<close> from flat key to value.\<close>

type_synonym ctx = "(string \<times> raw) list"

text \<open>
  Python's \<open>==\<close> on these shapes: values of different shapes are unequal, lists are
  compared element by element, dicts entry by entry whatever the insertion order.
\<close>

fun py_eq :: "raw \<Rightarrow> raw \<Rightarrow> bool"
  and py_eq_list :: "raw list \<Rightarrow> raw list \<Rightarrow> bool"
  and py_eq_items :: "(raw \<times> raw) list \<Rightarrow> (raw \<times> raw) list \<Rightarrow> bool" where
  "py_eq RNone b = (b = RNone)"
| "py_eq (RBool x) b = (b = RBool x)"
| "py_eq (RStr x) b = (b = RStr x)"
| "py_eq (RList xs) b = (case b of RList ys \<Rightarrow> py_eq_list xs ys | _ \<Rightarrow> False)"
| "py_eq (RDict xs) b =
     (case b of RDict ys \<Rightarrow> length xs = length ys \<and> py_eq_items xs ys | _ \<Rightarrow> False)"
| "py_eq_list [] ys = (ys = [])"
| "py_eq_list (x # xs) ys = (case ys of [] \<Rightarrow> False | y # ys' \<Rightarrow> py_eq x y \<and> py_eq_list xs ys')"
| "py_eq_items [] ys = True"
| "py_eq_items (kv # xs) ys =
     ((case map_of ys (fst kv) of None \<Rightarrow> False | Some v' \<Rightarrow> py_eq (snd kv) v')
      \<and> py_eq_items xs ys)"

text \<open>Truth value, \<open>isinstance(x, dict)\<close>, and whether a value can be a dict key.\<close>

fun truthy :: "raw \<Rightarrow> bool" where
  "truthy RNone = False"
| "truthy (RBool b) = b"
| "truthy (RStr s) = (s \<noteq> [])"
| "truthy (RList xs) = (xs \<noteq> [])"
| "truthy (RDict kvs) = (kvs \<noteq> [])"

fun is_dict :: "raw \<Rightarrow> bool" where
  "is_dict (RDict kvs) = True"
| "is_dict r = False"

fun hashable :: "raw \<Rightarrow> bool" where
  "hashable (RList xs) = False"
| "hashable (RDict kvs) = False"
| "hashable r = True"

section \<open>Errors and results\<close>

text \<open>
  The exceptions the code raises or lets through. \<open>UndefinedVariableInTemplate\<close> carries
  the name of the top-level variable of its message.
\<close>

datatype error =
    ValueError
  | TypeError
  | KeyError
  | IndexError
  | AttributeError
  | FileNotFoundError
  | IsADirectoryError
  | UndefinedError
  | UndefinedVariableInTemplate string

fun bind_sum :: "error + 'a \<Rightarrow> ('a \<Rightarrow> error + 'b) \<Rightarrow> error + 'b" where
  "bind_sum (Inl e) f = Inl e"
| "bind_sum (Inr x) f = f x"

text \<open>
  A call that may prompt returns \<open>None\<close> when it never returns (the operator never gives
  an answer that ends a retry loop), \<open>Some (Inl e)\<close> when it raises \<open>e\<close>, and
  \<open>Some (Inr x)\<close> when it returns \<open>x\<close>.
\<close>

fun bind_res :: "(error + 'a) option \<Rightarrow> ('a \<Rightarrow> (error + 'b) option) \<Rightarrow> (error + 'b) option" where
  "bind_res None f = None"
| "bind_res (Some (Inl e)) f = Some (Inl e)"
| "bind_res (Some (Inr x)) f = f x"

text \<open>\<open>x[key]\<close> with a string key: only a dict can be subscripted with it.\<close>

fun getitem :: "raw \<Rightarrow> string \<Rightarrow> error + raw" where
  "getitem (RDict kvs) k = (case map_of kvs (RStr k) of None \<Rightarrow> Inl KeyError | Some v \<Rightarrow> Inr v)"
| "getitem r k = Inl TypeError"

text \<open>\<open>str.endswith\<close>, \<open>str.startswith\<close> and \<open>str(n)\<close> of a non-negative integer.\<close>

definition endswith :: "string \<Rightarrow> string \<Rightarrow> bool" where
  "endswith s suf = suffix suf s"

definition startswith :: "string \<Rightarrow> string \<Rightarrow> bool" where
  "startswith s pre = prefix pre s"

fun str_nat :: "nat \<Rightarrow> string" where
  "str_nat n =
     (if n < 10 then [''0123456789'' ! n] else str_nat (n div 10) @ [''0123456789'' ! (n mod 10)])"

section \<open>The variable tree (variables.py)\<close>

text \<open>
  \<open>class CookiecutterVariable\<close>. The field \<open>value\<close> is called \<open>val\<close> here. The type
  parameter is the shape of \<open>name\<close> and \<open>prompt\<close>: the constructor declares them as
  \<open>str\<close>, and every function that works on a tree uses them as text, so a tree that is
  resolved or flattened is a \<open>string var\<close>; a tree as \<open>from_dict\<close> builds it holds
  whatever the document holds there and is a \<open>raw var\<close>.
\<close>

datatype 'n var =
  Var (name: 'n) (val: raw) (prompt: 'n) (variables: "'n var list")
      (matches: raw) (metadata: raw)

text \<open>
  \<open>to_cookiecutter_dict(self, parent)\<close>: the loop over \<open>self.variables\<close> is \<open>tcd_loop\<close>,
  with the dict \<open>d\<close> built so far as accumulator.
\<close>

fun to_cookiecutter_dict :: "string var \<Rightarrow> string \<Rightarrow> ctx"
  and tcd_loop :: "string var list \<Rightarrow> string \<Rightarrow> ctx \<Rightarrow> ctx" where
  "to_cookiecutter_dict (Var n x p vs m md) parent = tcd_loop vs parent []"
| "tcd_loop [] parent d = d"
| "tcd_loop (v # vs) parent d =
     tcd_loop vs parent
       (od_update (od_set (parent @ name v) (val v) d)
          (to_cookiecutter_dict v (parent @ name v @ ''/'')))"

text \<open>
  What the flattening is compared with: one entry per descendant of a list of siblings,
  in pre-order, under the path joined with \<open>/\<close>, whatever the \<open>matches\<close> fields hold.
\<close>

fun flat_entries :: "string \<Rightarrow> string var list \<Rightarrow> ctx"
  and var_entries :: "string \<Rightarrow> string var \<Rightarrow> ctx" where
  "flat_entries parent [] = []"
| "flat_entries parent (v # vs) = var_entries parent v @ flat_entries parent vs"
| "var_entries parent (Var n x p vs m md) = (parent @ n, x) # flat_entries (parent @ n @ ''/'') vs"

section \<open>Rendering (prompt.py, render_variable)\<close>

text \<open>
  The Jinja2 environment is a parameter: \<open>env.from_string(raw).render(cookiecutter=d)\<close>
  is \<open>env raw d\<close>, which returns the rendered text or raises.
\<close>

type_synonym env = "string \<Rightarrow> ctx \<Rightarrow> error + string"

text \<open>
  \<open>render_variable\<close>. The dict comprehension is \<open>render_items\<close>, the list comprehension
  \<open>render_list\<close>. The branch \<open>raw = str(raw)\<close> is for values outside \<open>_Raw\<close> and has no
  counterpart here.
\<close>

function render_variable :: "env \<Rightarrow> raw \<Rightarrow> ctx \<Rightarrow> error + raw"
  and render_list :: "env \<Rightarrow> raw list \<Rightarrow> ctx \<Rightarrow> error + raw list"
  and render_items :: "env \<Rightarrow> (raw \<times> raw) list \<Rightarrow> ctx \<Rightarrow> (raw \<times> raw) list
                         \<Rightarrow> error + (raw \<times> raw) list" where
  "render_variable env RNone d = Inr RNone"
| "render_variable env (RBool b) d = Inr (RBool b)"
| "render_variable env (RDict kvs) d =
     (case render_items env kvs d [] of Inl e \<Rightarrow> Inl e | Inr kvs' \<Rightarrow> Inr (RDict kvs'))"
| "render_variable env (RList xs) d =
     (case render_list env xs d of Inl e \<Rightarrow> Inl e | Inr ys \<Rightarrow> Inr (RList ys))"
| "render_variable env (RStr t) d =
     (case env t d of Inl e \<Rightarrow> Inl e | Inr t' \<Rightarrow> Inr (RStr t'))"
| "render_list env [] d = Inr []"
| "render_list env (x # xs) d =
     (case render_variable env x d of
        Inl e \<Rightarrow> Inl e
      | Inr y \<Rightarrow> (case render_list env xs d of Inl e \<Rightarrow> Inl e | Inr ys \<Rightarrow> Inr (y # ys)))"
| "render_items env [] d acc = Inr acc"
| "render_items env ((k, v) # kvs) d acc =
     (case render_variable env k d of
        Inl e \<Rightarrow> Inl e
      | Inr k' \<Rightarrow>
          (case render_variable env v d of
             Inl e \<Rightarrow> Inl e
           | Inr v' \<Rightarrow>
               if hashable k' then render_items env kvs d (od_set k' v' acc) else Inl TypeError))"
  by pat_completeness auto
termination
  by (relation "measure (case_sum (\<lambda>(env, r, d). size r)
         (case_sum (\<lambda>(env, xs, d). size_list size xs)
            (\<lambda>(env, kvs, d, acc). size_list (size_prod size size) kvs)))") auto

section \<open>The operator (prompt.py, the read_user functions)\<close>

text \<open>
  The prompt classes of the terminal library are parameters. Each takes the state of the
  terminal session and returns the answer with the new state:
  \<^item> \<open>prompt_ask q dflt\<close> is \<open>Prompt.ask(q, default=dflt)\<close>;
  \<^item> \<open>yes_no_ask q dflt\<close> is \<open>YesNoPrompt.ask(q, default=dflt)\<close>;
  \<^item> \<open>json_ask q dflt\<close> is \<open>JsonPrompt.ask(q, default=dflt, show_default=False)\<close>;
  \<^item> \<open>choice_ask pfx question lines choices dflt\<close> is
    \<open>Prompt.ask(prompt, choices=choices, default=dflt)\<close>, where the text \<open>prompt\<close> is
    laid out from the prefix \<open>pfx\<close>, the question and the numbered lines.
  What is shown for a choice is a \<open>label\<close>: a title, or a title with its description.
\<close>

datatype label = Title raw | TitleDescr raw raw

record 's channel =
  prompt_ask :: "string \<Rightarrow> raw \<Rightarrow> 's \<Rightarrow> raw \<times> 's"
  yes_no_ask :: "string \<Rightarrow> raw \<Rightarrow> 's \<Rightarrow> raw \<times> 's"
  json_ask :: "string \<Rightarrow> raw \<Rightarrow> 's \<Rightarrow> raw \<times> 's"
  choice_ask :: "string \<Rightarrow> label \<Rightarrow> (string \<times> label) list \<Rightarrow> string list \<Rightarrow> string \<Rightarrow> 's
                   \<Rightarrow> string \<times> 's"

text \<open>
  The question of \<open>read_user_variable\<close>, \<open>read_user_yes_no\<close> and \<open>read_user_dict\<close>:
  \<open>prompts[var_name] if prompts and var_name in prompts and prompts[var_name] else var_name\<close>.
\<close>

definition question_for :: "(string \<times> string) list \<Rightarrow> string \<Rightarrow> string" where
  "question_for prompts var_name =
     (case map_of prompts var_name of
        None \<Rightarrow> var_name
      | Some q \<Rightarrow> if q \<noteq> [] then q else var_name)"

text \<open>\<open>read_user_variable\<close>: asks again until the answer is not \<open>None\<close>.\<close>

partial_function (option) read_user_variable ::
  "'s channel \<Rightarrow> string \<Rightarrow> raw \<Rightarrow> (string \<times> string) list \<Rightarrow> string \<Rightarrow> 's \<Rightarrow> (raw \<times> 's) option" where
  "read_user_variable ch var_name default_value prompts pfx s =
     (case prompt_ask ch (pfx @ question_for prompts var_name) default_value s of
        (variable, s') \<Rightarrow>
          if variable \<noteq> RNone then Some (variable, s')
          else read_user_variable ch var_name default_value prompts pfx s')"

declare read_user_variable.simps [code]

definition read_user_yes_no ::
  "'s channel \<Rightarrow> string \<Rightarrow> raw \<Rightarrow> (string \<times> string) list \<Rightarrow> string \<Rightarrow> 's \<Rightarrow> raw \<times> 's" where
  "read_user_yes_no ch var_name default_value prompts pfx s =
     yes_no_ask ch (pfx @ question_for prompts var_name) default_value s"

definition read_user_dict ::
  "'s channel \<Rightarrow> string \<Rightarrow> raw \<Rightarrow> (string \<times> string) list \<Rightarrow> string \<Rightarrow> 's
     \<Rightarrow> error + raw \<times> 's" where
  "read_user_dict ch var_name default_value prompts pfx s =
     (if \<not> is_dict default_value then Inl TypeError
      else Inr (json_ask ch (pfx @ question_for prompts var_name @ '' [cyan bold](default)[/]'')
                  default_value s))"

text \<open>
  \<open>read_user_choice\<close>. An entry of \<open>prompts\<close> is a text or a dict from option name to
  label. \<open>option_names\<close> is the list comprehension \<open>[(k, v["name"]) ...]\<close>, evaluated
  before anything is shown; \<open>choice_lines\<close> is the generator over \<open>choice_map.items()\<close>
  used when the entry is a dict.
\<close>

datatype prompt_entry = PStr string | PDict "(raw \<times> label) list"

fun option_names :: "raw list \<Rightarrow> error + raw list" where
  "option_names [] = Inr []"
| "option_names (v # vs) =
     bind_sum (getitem v ''name'') (\<lambda>n. bind_sum (option_names vs) (\<lambda>ns. Inr (n # ns)))"

fun choice_lines :: "(raw \<times> label) list \<Rightarrow> (string \<times> raw) list \<Rightarrow> error + (string \<times> label) list" where
  "choice_lines pd [] = Inr []"
| "choice_lines pd (ip # ips) =
     bind_sum (getitem (snd ip) ''name'')
       (\<lambda>n. if \<not> hashable n then Inl TypeError
            else bind_sum (choice_lines pd ips)
                   (\<lambda>ls. Inr ((fst ip, (case map_of pd n of Some l \<Rightarrow> l | None \<Rightarrow> Title n)) # ls)))"

definition read_user_choice ::
  "'s channel \<Rightarrow> string \<Rightarrow> raw list \<Rightarrow> (string \<times> prompt_entry) list \<Rightarrow> string \<Rightarrow> 's
     \<Rightarrow> error + raw \<times> 's" where
  "read_user_choice ch var_name options prompts pfx s =
     (if options = [] then Inl ValueError
      else
        let choice_map = zip (map str_nat [1 ..< Suc (length options)]) options;
            choices = map fst choice_map;
            question = Title (RStr (''Select '' @ var_name))
        in bind_sum (option_names options)
             (\<lambda>names.
                bind_sum
                  (case map_of prompts var_name of
                     None \<Rightarrow> Inr (question, zip choices (map Title names))
                   | Some (PStr q) \<Rightarrow> Inr (Title (RStr q), zip choices (map Title names))
                   | Some (PDict pd) \<Rightarrow>
                       bind_sum (choice_lines pd choice_map)
                         (\<lambda>ls. Inr ((case map_of pd (RStr ''__prompt__'') of
                                       Some q \<Rightarrow> q | None \<Rightarrow> question), ls)))
                  (\<lambda>(q, ls).
                     case choice_ask ch pfx q ls choices (hd choices) s of
                       (user_choice, s') \<Rightarrow>
                         (case map_of choice_map user_choice of
                            None \<Rightarrow> Inl KeyError
                          | Some v \<Rightarrow> Inr (v, s')))))"

section \<open>Resolution (prompt.py, prompt_for_config and get_cookiecutter_values)\<close>

definition prompt_choice_for_config ::
  "ctx \<Rightarrow> env \<Rightarrow> 's channel \<Rightarrow> string \<Rightarrow> raw list \<Rightarrow> bool \<Rightarrow> (string \<times> prompt_entry) list
     \<Rightarrow> string \<Rightarrow> 's \<Rightarrow> error + raw \<times> 's" where
  "prompt_choice_for_config cookiecutter_dict env ch key options no_input prompts pfx s =
     bind_sum (render_list env options cookiecutter_dict)
       (\<lambda>rendered_options.
          if no_input then
            (case rendered_options of [] \<Rightarrow> Inl IndexError | r # rs \<Rightarrow> Inr (r, s))
          else read_user_choice ch key rendered_options prompts pfx s)"

text \<open>
  The \<open>if\<close>/\<open>elif\<close> chain of \<open>get_cookiecutter_values\<close>, which stores the variable's own
  value under \<open>name = parent + v.name\<close> (here \<open>key\<close>), or nothing when the raw value is a dict.
\<close>

definition store_value ::
  "env \<Rightarrow> 's channel \<Rightarrow> bool \<Rightarrow> string \<Rightarrow> string \<Rightarrow> string var \<Rightarrow> ctx \<times> 's
     \<Rightarrow> (error + ctx \<times> 's) option" where
  "store_value env ch no_input pfx parent v st =
     (case st of (cookiecutter_dict, s) \<Rightarrow>
        let key = parent @ name v in
        (case val v of
          RList options \<Rightarrow>
            Some (bind_sum
                    (prompt_choice_for_config cookiecutter_dict env ch (name v) options no_input
                       [(name v, PStr (prompt v))] pfx s)
                    (\<lambda>(chosen, s'). bind_sum (getitem chosen ''name'')
                       (\<lambda>n. Inr (od_set key n cookiecutter_dict, s'))))
        | RBool b \<Rightarrow>
            if no_input then
              Some (bind_sum (render_variable env (RBool b) cookiecutter_dict)
                      (\<lambda>r. Inr (od_set key r cookiecutter_dict, s)))
            else
              (case read_user_yes_no ch (name v) (RBool b) [(name v, prompt v)] pfx s of
                 (r, s') \<Rightarrow> Some (Inr (od_set key r cookiecutter_dict, s')))
        | RDict kvs \<Rightarrow> Some (Inr (cookiecutter_dict, s))
        | _ \<Rightarrow>
            (case render_variable env (val v) cookiecutter_dict of
               Inl e \<Rightarrow> Some (Inl e)
             | Inr rendered \<Rightarrow>
                 if \<not> no_input then
                   (case read_user_variable ch (name v) rendered [(name v, prompt v)] pfx s of
                      None \<Rightarrow> None
                    | Some (rendered', s') \<Rightarrow> Some (Inr (od_set key rendered' cookiecutter_dict, s')))
                 else Some (Inr (od_set key rendered cookiecutter_dict, s)))))"

text \<open>
  \<open>get_cookiecutter_values\<close>; its loop \<open>for branch in v.variables\<close> is \<open>branch_loop\<close>,
  which reads \<open>cookiecutter_dict[name]\<close> again for every branch.
\<close>

fun get_cookiecutter_values ::
  "env \<Rightarrow> 's channel \<Rightarrow> bool \<Rightarrow> string \<Rightarrow> string \<Rightarrow> string var \<Rightarrow> ctx \<times> 's \<Rightarrow> (error + ctx \<times> 's) option"
  and branch_loop ::
  "env \<Rightarrow> 's channel \<Rightarrow> bool \<Rightarrow> string \<Rightarrow> string \<Rightarrow> string var list \<Rightarrow> ctx \<times> 's \<Rightarrow> (error + ctx \<times> 's) option"
  where
  "get_cookiecutter_values env ch no_input pfx parent (Var n x p vs m md) st =
     bind_res (store_value env ch no_input pfx parent (Var n x p vs m md) st)
       (branch_loop env ch no_input pfx (parent @ n) vs)"
| "branch_loop env ch no_input pfx key [] st = Some (Inr st)"
| "branch_loop env ch no_input pfx key (branch # branches) st =
     (case map_of (fst st) key of
        None \<Rightarrow> Some (Inl KeyError)
      | Some cur \<Rightarrow>
          if py_eq (matches branch) cur then
            bind_res (get_cookiecutter_values env ch no_input pfx (key @ ''/'') branch st)
              (branch_loop env ch no_input pfx key branches)
          else branch_loop env ch no_input pfx key branches st)"

text \<open>
  \<open>prompt_for_config\<close>. The state of its two loops is the context, \<open>count\<close> and the
  terminal session; \<open>pass1_step\<close> and \<open>pass2_step\<close> are the loop bodies. An
  \<open>UndefinedError\<close> raised inside a \<open>try\<close> becomes \<open>UndefinedVariableInTemplate\<close>.
\<close>

definition position_prefix :: "nat \<Rightarrow> nat \<Rightarrow> string" where
  "position_prefix count sz = ''  [dim]['' @ str_nat count @ ''/'' @ str_nat sz @ ''][/] ''"

fun wrap_undefined :: "string \<Rightarrow> (error + 'a) option \<Rightarrow> (error + 'a) option" where
  "wrap_undefined n (Some (Inl UndefinedError)) = Some (Inl (UndefinedVariableInTemplate n))"
| "wrap_undefined n r = r"

definition pass1_step ::
  "env \<Rightarrow> 's channel \<Rightarrow> bool \<Rightarrow> nat \<Rightarrow> string var \<Rightarrow> ctx \<times> nat \<times> 's \<Rightarrow> (error + ctx \<times> nat \<times> 's) option" where
  "pass1_step env ch no_input sz v st =
     (case st of (cookiecutter_dict, count, s) \<Rightarrow>
        if startswith (name v) ''_'' \<and> \<not> startswith (name v) ''__'' then
          Some (Inr (od_set (name v) (val v) cookiecutter_dict, count, s))
        else if startswith (name v) ''__'' then
          Some (bind_sum (render_variable env (val v) cookiecutter_dict)
                  (\<lambda>r. Inr (od_set (name v) r cookiecutter_dict, count, s)))
        else
          let count' = (if \<not> is_dict (val v) then count + 1 else count);
              pfx = (if \<not> is_dict (val v) then position_prefix count' sz else [])
          in wrap_undefined (name v)
               (bind_res (get_cookiecutter_values env ch no_input pfx [] v (cookiecutter_dict, s))
                  (\<lambda>(d, s'). Some (Inr (d, count', s')))))"

definition pass2_step ::
  "env \<Rightarrow> 's channel \<Rightarrow> bool \<Rightarrow> nat \<Rightarrow> string var \<Rightarrow> ctx \<times> nat \<times> 's \<Rightarrow> (error + ctx \<times> nat \<times> 's) option" where
  "pass2_step env ch no_input sz v st =
     (case st of (cookiecutter_dict, count, s) \<Rightarrow>
        if startswith (name v) ''_'' \<and> \<not> startswith (name v) ''__'' then Some (Inr st)
        else if is_dict (val v) then
          let count' = count + 1;
              pfx = position_prefix count' sz
          in wrap_undefined (name v)
               (Some (bind_sum (render_variable env (val v) cookiecutter_dict)
                  (\<lambda>rendered.
                     if \<not> no_input \<and> \<not> startswith (name v) ''__'' then
                       bind_sum (read_user_dict ch (name v) rendered [(name v, prompt v)] pfx s)
                         (\<lambda>(answer, s'). Inr (od_set (name v) answer cookiecutter_dict, count', s'))
                     else Inr (od_set (name v) rendered cookiecutter_dict, count', s))))
        else Some (Inr st))"

fun run_steps :: "('a \<Rightarrow> 'b \<Rightarrow> (error + 'b) option) \<Rightarrow> 'a list \<Rightarrow> 'b \<Rightarrow> (error + 'b) option" where
  "run_steps step [] st = Some (Inr st)"
| "run_steps step (v # vs) st = bind_res (step v st) (run_steps step vs)"

definition prompt_for_config ::
  "env \<Rightarrow> 's channel \<Rightarrow> bool \<Rightarrow> string var \<Rightarrow> 's \<Rightarrow> (error + ctx \<times> 's) option" where
  "prompt_for_config env ch no_input root s =
     (let vs = variables root;
          sz = length (filter (\<lambda>v. \<not> startswith (name v) ''_'') vs)
      in bind_res (run_steps (pass1_step env ch no_input sz) vs ([], 0, s))
           (\<lambda>st1. bind_res (run_steps (pass2_step env ch no_input sz) vs st1)
              (\<lambda>(cookiecutter_dict, count, s'). Some (Inr (cookiecutter_dict, s')))))"

section \<open>Nested-template selection (prompt.py, choose_nested_template)\<close>






text \<open>
  Paths as \<open>pathlib\<close> sees them on a POSIX system: a root (\<open>/\<close>, \<open>//\<close> or none) and
  the components between slashes, empty ones and \<open>.\<close> dropped. \<open>Path.resolve()\<close> is
  taken on a file system without symbolic links, where it makes the path absolute from
  the working directory, removes each \<open>..\<close> with the component before it and gives the
  result the root \<open>/\<close>. Paths hold no NUL character.
\<close>

fun split_on :: "char \<Rightarrow> string \<Rightarrow> string list" where
  "split_on c [] = [[]]"
| "split_on c (x # xs) =
     (if x = c then [] # split_on c xs
      else (case split_on c xs of [] \<Rightarrow> [[x]] | w # ws \<Rightarrow> (x # w) # ws))"

definition path_root :: "string \<Rightarrow> string" where
  "path_root p =
     (if startswith p ''//'' \<and> \<not> startswith p ''///'' then ''//''
      else if startswith p ''/'' then ''/'' else [])"

definition path_parts :: "string \<Rightarrow> string list" where
  "path_parts p = filter (\<lambda>w. w \<noteq> [] \<and> w \<noteq> ''.'') (split_on CHR ''/'' p)"


fun drop_dotdot :: "string list \<Rightarrow> string list \<Rightarrow> string list" where
  "drop_dotdot done [] = done"
| "drop_dotdot done (w # ws) =
     (if w = ''..'' then drop_dotdot (butlast done) ws else drop_dotdot (done @ [w]) ws)"

fun join_parts :: "string list \<Rightarrow> string" where
  "join_parts [] = []"
| "join_parts [w] = w"
| "join_parts (w # ws) = w @ ''/'' @ join_parts ws"

definition path_str :: "string \<times> string list \<Rightarrow> string" where
  "path_str p = fst p @ join_parts (snd p)"

definition resolve :: "string \<Rightarrow> string \<times> string list \<Rightarrow> string \<times> string list" where
  "resolve wd p =
     (''/'', drop_dotdot [] ((if fst p \<noteq> [] then [] else path_parts wd) @ snd p))"


section \<open>Building the tree from a document (variables.py, from_dict)\<close>

text \<open>
  \<open>CookiecutterVariable.from_dict\<close>. Nothing is tested about the shape of the fields:
  \<open>name\<close> and \<open>prompt\<close> are whatever value the document holds, so the tree built is a
  \<open>raw var\<close>. The constructor replaces a prompt that is not truthy by the name. \<open>d.get\<close>
  exists on a dict only, so a text under \<open>variables\<close> fails at its first character and a
  dict at its first key.
\<close>

definition dict_get :: "(raw \<times> raw) list \<Rightarrow> string \<Rightarrow> raw \<Rightarrow> raw" where
  "dict_get kvs k dflt = (case map_of kvs (RStr k) of None \<Rightarrow> dflt | Some v \<Rightarrow> v)"

lemma map_of_size: "map_of kvs k = Some v \<Longrightarrow> size v < Suc (size_list (size_prod size size) kvs)"
  by (induction kvs) (auto split: if_splits)

lemma dict_get_size:
  "size (dict_get kvs k dflt) < size (RDict kvs) \<or> dict_get kvs k dflt = dflt"
  using map_of_size [of kvs "RStr k"] by (auto simp: dict_get_def split: option.splits)

lemma keys_size: "size_list size (map fst kvs) \<le> size_list (size_prod size size) kvs"
  by (induction kvs) auto

function from_dict :: "raw \<Rightarrow> error + raw var"
  and from_dict_list :: "raw list \<Rightarrow> error + raw var list" where
  "from_dict (RDict kvs) =
     (let n = dict_get kvs ''name'' (RStr []);
          p = dict_get kvs ''prompt'' n
      in case (case dict_get kvs ''variables'' (RList []) of
                 RList items \<Rightarrow> from_dict_list items
               | RDict kvs' \<Rightarrow> from_dict_list (map fst kvs')
               | RStr t \<Rightarrow> if t = [] then Inr [] else Inl AttributeError
               | _ \<Rightarrow> Inl TypeError) of
           Inl e \<Rightarrow> Inl e
         | Inr vs \<Rightarrow>
             Inr (Var n (dict_get kvs ''value'' RNone) (if truthy p then p else n) vs
                    (dict_get kvs ''matches'' RNone) (dict_get kvs ''metadata'' RNone)))"
| "from_dict RNone = Inl AttributeError"
| "from_dict (RBool b) = Inl AttributeError"
| "from_dict (RStr t) = Inl AttributeError"
| "from_dict (RList xs) = Inl AttributeError"
| "from_dict_list [] = Inr []"
| "from_dict_list (x # xs) =
     (case from_dict x of
        Inl e \<Rightarrow> Inl e
      | Inr v \<Rightarrow> (case from_dict_list xs of Inl e \<Rightarrow> Inl e | Inr vs \<Rightarrow> Inr (v # vs)))"
  by pat_completeness auto
termination
proof (relation "measure (case_sum size (size_list size))")
  show "wf (measure (case_sum size (size_list size)))"
    by simp
next
  fix kvs :: "(raw \<times> raw) list" and items :: "raw list"
  assume "dict_get kvs ''variables'' (RList []) = RList items"
  then have "size_list size items < size (RDict kvs)"
    using dict_get_size [of kvs "''variables''" "RList []"] by auto
  then show "(Inr items, Inl (RDict kvs)) \<in> measure (case_sum size (size_list size))"
    by simp
next
  fix kvs kvs' :: "(raw \<times> raw) list"
  assume "dict_get kvs ''variables'' (RList []) = RDict kvs'"
  then have "size (RDict kvs') < size (RDict kvs)"
    using dict_get_size [of kvs "''variables''" "RList []"] by auto
  then have "size_list size (map fst kvs') < size (RDict kvs)"
    using keys_size [of kvs'] by simp
  then show "(Inr (map fst kvs'), Inl (RDict kvs)) \<in> measure (case_sum size (size_list size))"
    by simp
qed auto

section \<open>Replay files (replay.py)\<close>

text \<open>\<open>os.path.join\<close> of two components on a POSIX system.\<close>

definition os_path_join :: "string \<Rightarrow> string \<Rightarrow> string" where
  "os_path_join a b =
     (if startswith b ''/'' then b
      else if a = [] \<or> endswith a ''/'' then a @ b
      else a @ ''/'' @ b)"

definition get_file_name :: "string \<Rightarrow> string \<Rightarrow> string" where
  "get_file_name replay_dir template_name =
     (let suffix = (if \<not> endswith template_name ''.yaml'' then ''.yaml'' else ''.json'');
          file_name = template_name @ suffix
      in os_path_join replay_dir file_name)"

text \<open>
  What \<open>yaml.safe_load\<close> reads back from what \<open>yaml.safe_dump\<close> wrote. The encoding
  keeps the data; of its defaults only the order of keys shows: the entries of a mapping
  are written sorted by key when the keys can be compared (all texts, by code point, or
  all booleans), and in their own order otherwise.
\<close>

fun str_less :: "string \<Rightarrow> string \<Rightarrow> bool" where
  "str_less [] ys = (ys \<noteq> [])"
| "str_less (x # xs) [] = False"
| "str_less (x # xs) (y # ys) = ((of_char x :: nat) < of_char y \<or> (x = y \<and> str_less xs ys))"

fun key_less :: "raw \<Rightarrow> raw \<Rightarrow> bool" where
  "key_less (RStr a) (RStr b) = str_less a b"
| "key_less (RBool a) (RBool b) = (\<not> a \<and> b)"
| "key_less a b = False"

fun is_str :: "raw \<Rightarrow> bool" where
  "is_str (RStr t) = True"
| "is_str r = False"

fun is_bool :: "raw \<Rightarrow> bool" where
  "is_bool (RBool b) = True"
| "is_bool r = False"

fun insort_by :: "('k \<Rightarrow> 'k \<Rightarrow> bool) \<Rightarrow> 'k \<times> 'v \<Rightarrow> ('k \<times> 'v) list \<Rightarrow> ('k \<times> 'v) list" where
  "insort_by lt kv [] = [kv]"
| "insort_by lt kv (x # xs) =
     (if lt (fst x) (fst kv) then x # insort_by lt kv xs else kv # x # xs)"

definition sort_by :: "('k \<Rightarrow> 'k \<Rightarrow> bool) \<Rightarrow> ('k \<times> 'v) list \<Rightarrow> ('k \<times> 'v) list" where
  "sort_by lt kvs = foldr (insort_by lt) kvs []"

definition sort_items :: "(raw \<times> raw) list \<Rightarrow> (raw \<times> raw) list" where
  "sort_items kvs =
     (if list_all is_str (map fst kvs) \<or> list_all is_bool (map fst kvs)
      then sort_by key_less kvs else kvs)"

function yaml_reload :: "raw \<Rightarrow> raw"
  and yaml_reload_list :: "raw list \<Rightarrow> raw list"
  and yaml_reload_items :: "(raw \<times> raw) list \<Rightarrow> (raw \<times> raw) list" where
  "yaml_reload RNone = RNone"
| "yaml_reload (RBool b) = RBool b"
| "yaml_reload (RStr t) = RStr t"
| "yaml_reload (RList xs) = RList (yaml_reload_list xs)"
| "yaml_reload (RDict kvs) = RDict (sort_items (yaml_reload_items kvs))"
| "yaml_reload_list [] = []"
| "yaml_reload_list (x # xs) = yaml_reload x # yaml_reload_list xs"
| "yaml_reload_items [] = []"
| "yaml_reload_items ((k, v) # kvs) = (k, yaml_reload v) # yaml_reload_items kvs"
  by pat_completeness auto
termination
  by (relation "measure (case_sum size
         (case_sum (size_list size) (size_list (size_prod size size))))") auto

text \<open>The same for the context, a dict with text keys.\<close>

definition yaml_document :: "ctx \<Rightarrow> ctx" where
  "yaml_document context =
     sort_by str_less (map (\<lambda>kv. (fst kv, yaml_reload (snd kv))) context)"

text \<open>
  The file system: the working directory, the directories that exist (each by its
  absolute path) and, for each replay file, the document it holds, as
  \<open>yaml.safe_load\<close> reads it (\<open>context: dict[str, Any]\<close>).
\<close>

record fs =
  working_dir :: string
  dirs :: "string set"
  files :: "string \<rightharpoonup> ctx"

definition abs_path :: "string \<Rightarrow> string \<Rightarrow> string \<times> string list" where
  "abs_path wd p = resolve wd (path_root p, path_parts p)"

text \<open>
  Modelled from the spec: \<open>make_sure_path_exists\<close> of \<open>cookiecutter.utils\<close>, whose source
  is not among the files; \<open>dump\<close> is said to be "creating the directory if absent". The
  directory exists afterwards, and so does every directory above it.
\<close>

definition make_sure_path_exists :: "string \<Rightarrow> fs \<Rightarrow> fs" where
  "make_sure_path_exists path f =
     f\<lparr>dirs := dirs f \<union> set (map (\<lambda>ps. path_str (''/'', ps)) (prefixes (snd (abs_path (working_dir f) path))))\<rparr>"

text \<open>
  \<open>open(replay_file, 'w')\<close> raises when the directory of the file does not exist, or
  when the path is a directory.
\<close>

definition open_for_writing :: "string \<Rightarrow> fs \<Rightarrow> error + unit" where
  "open_for_writing path f =
     (let p = abs_path (working_dir f) path in
      if path_str (fst p, butlast (snd p)) \<notin> dirs f then Inl FileNotFoundError
      else if path_str p \<in> dirs f then Inl IsADirectoryError
      else Inr ())"

text \<open>\<open>dump\<close>: the outcome and the file system it leaves.\<close>

definition dump :: "string \<Rightarrow> string \<Rightarrow> ctx \<Rightarrow> fs \<Rightarrow> (error + unit) \<times> fs" where
  "dump replay_dir template_name context f =
     (let f1 = make_sure_path_exists replay_dir f in
      if map_of context ''cookiecutter'' = None then (Inl ValueError, f1)
      else
        let replay_file = get_file_name replay_dir template_name in
        case open_for_writing replay_file f1 of
          Inl e \<Rightarrow> (Inl e, f1)
        | Inr u \<Rightarrow> (Inr (), f1\<lparr>files := (files f1)(replay_file \<mapsto> yaml_document context)\<rparr>))"

text \<open>
  \<open>load\<close>: \<open>open(replay_file)\<close> raises when there is no such file; in the context
  returned, the value under \<open>cookiecutter\<close> is a variable tree and every other value is
  as loaded.
\<close>

datatype cvalue = Plain raw | Tree "raw var"

definition load :: "string \<Rightarrow> string \<Rightarrow> fs \<Rightarrow> error + (string \<times> cvalue) list" where
  "load replay_dir template_name f =
     (let replay_file = get_file_name replay_dir template_name in
      case files f replay_file of
        None \<Rightarrow>
          if path_str (abs_path (working_dir f) replay_file) \<in> dirs f then Inl IsADirectoryError
          else Inl FileNotFoundError
      | Some context \<Rightarrow>
          (case map_of context ''cookiecutter'' of
             None \<Rightarrow> Inl ValueError
           | Some c \<Rightarrow>
               bind_sum (from_dict c)
                 (\<lambda>t. Inr (od_set ''cookiecutter'' (Tree t)
                              (map (\<lambda>kv. (fst kv, Plain (snd kv))) context)))))"

section \<open>Instances used in the examples\<close>

text \<open>
  A renderer that stands for a Jinja2 environment on the two kinds of template the
  examples use: \<open>{{ cookiecutter|length }}\<close> renders to the number of keys of the
  context, and a text without template syntax renders to itself.
\<close>

definition demo_env :: env where
  "demo_env t d = Inr (if t = ''{{ cookiecutter|length }}'' then str_nat (length d) else t)"

text \<open>An operator who submits nothing: every prompt returns its default.\<close>

definition silent :: "unit channel" where
  "silent = \<lparr> prompt_ask = (\<lambda>q dflt s. (dflt, s)),
              yes_no_ask = (\<lambda>q dflt s. (dflt, s)),
              json_ask = (\<lambda>q dflt s. (dflt, s)),
              choice_ask = (\<lambda>pfx q ls choices dflt s. (dflt, s)) \<rparr>"

text \<open>
  An operator who submits nothing, with the session recording every question asked.
\<close>

definition recorder :: "string list channel" where
  "recorder = \<lparr> prompt_ask = (\<lambda>q dflt s. (dflt, s @ [q])),
                yes_no_ask = (\<lambda>q dflt s. (dflt, s @ [q])),
                json_ask = (\<lambda>q dflt s. (dflt, s @ [q])),
                choice_ask = (\<lambda>pfx q ls choices dflt s. (dflt, s @ [pfx])) \<rparr>"

section \<open>What a resolution step may write\<close>

text \<open>
  \<open>writes_only K d d'\<close>: the context \<open>d'\<close> comes from \<open>d\<close> by stores under keys of \<open>K\<close>.
  The keys of \<open>d\<close> stay where they are, new keys come behind them, and the value under a
  key outside \<open>K\<close> is untouched.
\<close>

definition writes_only :: "string set \<Rightarrow> ctx \<Rightarrow> ctx \<Rightarrow> bool" where
  "writes_only K d d' \<longleftrightarrow>
     prefix (map fst d) (map fst d')
     \<and> fst ` set d' \<subseteq> fst ` set d \<union> K
     \<and> (\<forall>k. k \<notin> K \<longrightarrow> map_of d' k = map_of d k)"

section \<open>Properties of the ordered dict\<close>

lemma od_set_keys:
  "map fst (od_set k v d) = (if k \<in> fst ` set d then map fst d else map fst d @ [k])"
  by (induction d) force+

lemma od_set_fresh: "k \<notin> fst ` set d \<Longrightarrow> od_set k v d = d @ [(k, v)]"
  by (induction d) auto

lemma od_set_map_of: "map_of (od_set k v d) k' = (if k' = k then Some v else map_of d k')"
  by (induction d) auto

lemma od_set_key_set: "fst ` set (od_set k v d) = insert k (fst ` set d)"
  using arg_cong [OF od_set_keys [of k v d], of set] by (auto split: if_splits)


lemma od_set_prefix: "prefix (map fst d) (map fst (od_set k v d))"
  by (simp add: od_set_keys)

lemma od_update_Nil: "od_update d [] = d"
  by (simp add: od_update_def)

lemma od_update_Cons: "od_update d (kv # e) = od_update (od_set (fst kv) (snd kv) d) e"
  by (simp add: od_update_def)

lemma od_update_key_set: "fst ` set (od_update d e) = fst ` set d \<union> fst ` set e"
  by (induction e arbitrary: d) (simp_all add: od_update_Nil od_update_Cons od_set_key_set)

lemma od_update_fresh:
  "distinct (map fst e) \<Longrightarrow> fst ` set d \<inter> fst ` set e = {} \<Longrightarrow> od_update d e = d @ e"
proof (induction e arbitrary: d)
  case Nil
  then show ?case by (simp add: od_update_Nil)
next
  case (Cons kv e)
  have fresh: "fst kv \<notin> fst ` set d"
    using Cons.prems(2) by auto
  have "od_update d (kv # e) = od_update (d @ [kv]) e"
    using fresh by (simp add: od_update_Cons od_set_fresh)
  also have "\<dots> = (d @ [kv]) @ e"
    using Cons.prems by (intro Cons.IH) auto
  finally show ?case by simp
qed

section \<open>Flattening the tree\<close>

lemma tcd_key_set:
  "fst ` set (to_cookiecutter_dict t parent) = fst ` set (flat_entries parent (variables t))"
  "fst ` set (tcd_loop vs parent d) = fst ` set d \<union> fst ` set (flat_entries parent vs)"
proof (induction t parent and vs parent d rule: to_cookiecutter_dict_tcd_loop.induct)
  case (1 n x p vs m md parent)
  then show ?case by simp
next
  case (2 parent d)
  then show ?case by simp
next
  case (3 v vs parent d)
  obtain n x p ws m md where v: "v = Var n x p ws m md"
    by (cases v)
  show ?case
    using "3.IH" by (simp add: v od_update_key_set od_set_key_set image_Un Un_ac)
qed

lemma tcd_distinct:
  "distinct (map fst (flat_entries parent (variables t))) \<Longrightarrow>
     to_cookiecutter_dict t parent = flat_entries parent (variables t)"
  "distinct (map fst (d @ flat_entries parent vs)) \<Longrightarrow>
     tcd_loop vs parent d = d @ flat_entries parent vs"
proof (induction t parent and vs parent d rule: to_cookiecutter_dict_tcd_loop.induct)
  case (1 n x p vs m md parent)
  then show ?case by simp
next
  case (2 parent d)
  then show ?case by simp
next
  case (3 v vs parent d)
  obtain n x p ws m md where v: "v = Var n x p ws m md"
    by (cases v)
  let ?sub = "flat_entries (parent @ n @ ''/'') ws"
  let ?d1 = "od_set (parent @ n) x d"
  from "3.prems" have dist: "distinct (map fst (d @ (parent @ n, x) # ?sub @ flat_entries parent vs))"
    by (simp add: v)
  have fresh: "parent @ n \<notin> fst ` set d"
    using dist by auto
  have d1: "?d1 = d @ [(parent @ n, x)]"
    using fresh by (rule od_set_fresh)
  have sub: "to_cookiecutter_dict v (parent @ name v @ ''/'') = ?sub"
    using "3.IH"(1) dist by (simp add: v)
  have upd: "od_update ?d1 ?sub = ?d1 @ ?sub"
    using dist by (intro od_update_fresh) (auto simp: d1)
  let ?D = "od_update (od_set (parent @ name v) (val v) d)
              (to_cookiecutter_dict v (parent @ name v @ ''/''))"
  have D: "?D = d @ (parent @ n, x) # ?sub"
    using sub upd by (simp add: v d1)
  have "distinct (map fst (?D @ flat_entries parent vs))"
    using dist unfolding D by simp
  then have step: "tcd_loop vs parent ?D = ?D @ flat_entries parent vs"
    by (rule "3.IH"(2))
  have "?D @ flat_entries parent vs = d @ flat_entries parent (v # vs)"
    unfolding D by (simp add: v)
  with step show ?case
    by (simp only: to_cookiecutter_dict.simps tcd_loop.simps)
qed

lemma od_set_entries: "set (od_set k v d) \<subseteq> insert (k, v) (set d)"
  by (induction d) (auto split: if_splits)

lemma od_update_entries: "set (od_update d e) \<subseteq> set d \<union> set e"
proof (induction e arbitrary: d)
  case Nil
  then show ?case by (simp add: od_update_Nil)
next
  case (Cons kv e)
  have "set (od_update (od_set (fst kv) (snd kv) d) e) \<subseteq> set (od_set (fst kv) (snd kv) d) \<union> set e"
    by (rule Cons.IH)
  also have "\<dots> \<subseteq> insert kv (set d) \<union> set e"
    using od_set_entries [of "fst kv" "snd kv" d] by auto
  finally show ?case
    by (auto simp: od_update_Cons)
qed

lemma tcd_entries:
  "set (to_cookiecutter_dict t parent) \<subseteq> set (flat_entries parent (variables t))"
  "set (tcd_loop vs parent d) \<subseteq> set d \<union> set (flat_entries parent vs)"
proof (induction t parent and vs parent d rule: to_cookiecutter_dict_tcd_loop.induct)
  case (1 n x p vs m md parent)
  then show ?case by simp
next
  case (2 parent d)
  then show ?case by simp
next
  case (3 v vs parent d)
  obtain n x p ws m md where v: "v = Var n x p ws m md"
    by (cases v)
  let ?D = "od_update (od_set (parent @ name v) (val v) d)
              (to_cookiecutter_dict v (parent @ name v @ ''/''))"
  have "set ?D \<subseteq> set (od_set (parent @ name v) (val v) d)
                    \<union> set (to_cookiecutter_dict v (parent @ name v @ ''/''))"
    by (rule od_update_entries)
  also have "\<dots> \<subseteq> insert (parent @ n, x) (set d) \<union> set (flat_entries (parent @ n @ ''/'') ws)"
    using od_set_entries [of "parent @ n" x d] "3.IH"(1) by (auto simp: v)
  finally have "set ?D \<subseteq> set d \<union> set (var_entries parent v)"
    by (auto simp: v)
  moreover have "set (tcd_loop vs parent ?D) \<subseteq> set ?D \<union> set (flat_entries parent vs)"
    by (rule "3.IH"(2))
  ultimately have "set (tcd_loop vs parent ?D) \<subseteq> set d \<union> set (flat_entries parent (v # vs))"
    by auto
  then show ?case
    by (simp only: tcd_loop.simps)
qed

section \<open>Results and binds\<close>

lemma bind_res_Inr:
  "bind_res m f = Some (Inr y) \<longleftrightarrow> (\<exists>x. m = Some (Inr x) \<and> f x = Some (Inr y))"
  by (cases "(m, f)" rule: bind_res.cases) auto

lemma bind_sum_Inr: "bind_sum m f = Inr y \<longleftrightarrow> (\<exists>x. m = Inr x \<and> f x = Inr y)"
  by (cases m) auto

lemma bind_res_cong_result:
  "(\<And>x. m = Some (Inr x) \<Longrightarrow> f x = g x) \<Longrightarrow> bind_res m f = bind_res m g"
  by (cases "(m, f)" rule: bind_res.cases) auto

lemma wrap_undefined_Inr: "wrap_undefined n r = Some (Inr x) \<longleftrightarrow> r = Some (Inr x)"
  by (cases "(n, r)" rule: wrap_undefined.cases) auto

lemma run_steps_append:
  "run_steps step (xs @ ys) st = bind_res (run_steps step xs st) (run_steps step ys)"
proof (induction xs arbitrary: st)
  case Nil
  then show ?case by simp
next
  case (Cons x xs)
  show ?case
    by (cases "(step x st, run_steps step (xs @ ys))" rule: bind_res.cases) (simp_all add: Cons.IH)
qed

section \<open>What a resolution step writes\<close>

lemma writes_only_refl: "writes_only K d d"
  by (simp add: writes_only_def)

lemma writes_only_trans:
  "writes_only K d d' \<Longrightarrow> writes_only K' d' d'' \<Longrightarrow> writes_only (K \<union> K') d d''"
proof -
  assume a: "writes_only K d d'" and b: "writes_only K' d' d''"
  have "prefix (map fst d) (map fst d'')"
    using a b unfolding writes_only_def by (blast intro: prefix_order.trans)
  moreover have "fst ` set d'' \<subseteq> fst ` set d \<union> (K \<union> K')"
    using a b unfolding writes_only_def by blast
  moreover have "\<forall>k. k \<notin> K \<union> K' \<longrightarrow> map_of d'' k = map_of d k"
    using a b unfolding writes_only_def by simp
  ultimately show ?thesis
    unfolding writes_only_def by blast
qed

lemma writes_only_mono: "writes_only K d d' \<Longrightarrow> K \<subseteq> K' \<Longrightarrow> writes_only K' d d'"
  unfolding writes_only_def by auto

lemma writes_only_od_set: "k \<in> K \<Longrightarrow> writes_only K d (od_set k x d)"
  unfolding writes_only_def by (auto simp: od_set_prefix od_set_key_set od_set_map_of)

lemma store_value_cases:
  assumes "store_value env ch no_input pfx parent v (d, s) = Some (Inr (d', s'))"
  shows "(is_dict (val v) \<and> d' = d \<and> s' = s)
         \<or> (\<not> is_dict (val v) \<and> (\<exists>x. d' = od_set (parent @ name v) x d))"
  using assms
  by (cases "val v")
     (auto simp: store_value_def bind_sum_Inr Let_def split: if_splits sum.splits option.splits prod.splits)

lemma store_value_writes:
  assumes "store_value env ch no_input pfx parent v st = Some (Inr st')"
  shows "writes_only {parent @ name v} (fst st) (fst st')"
proof -
  obtain d s d' s' where st: "st = (d, s)" "st' = (d', s')"
    by (cases st, cases st')
  show ?thesis
    using store_value_cases [OF assms [unfolded st]]
    by (auto simp: st writes_only_refl writes_only_od_set)
qed

lemma store_value_stored:
  assumes "store_value env ch no_input pfx parent v st = Some (Inr st')" "\<not> is_dict (val v)"
  shows "map_of (fst st') (parent @ name v) \<noteq> None"
proof -
  obtain d s d' s' where st: "st = (d, s)" "st' = (d', s')"
    by (cases st, cases st')
  show ?thesis
    using store_value_cases [OF assms(1) [unfolded st]] assms(2)
    by (auto simp: st od_set_map_of)
qed

lemma flat_entries_keys:
  "k \<in> fst ` set (flat_entries parent vs) \<Longrightarrow> prefix parent k"
  "k \<in> fst ` set (var_entries parent v) \<Longrightarrow> prefix (parent @ name v) k"
proof (induction parent vs and parent v arbitrary: k and k rule: flat_entries_var_entries.induct)
  case (1 parent)
  then show ?case by simp
next
  case (2 parent v vs)
  from "2.prems" consider "k \<in> fst ` set (var_entries parent v)"
    | "k \<in> fst ` set (flat_entries parent vs)"
    by auto
  then show ?case
  proof cases
    case 1
    then have "prefix (parent @ name v) k"
      by (rule "2.IH"(1))
    then show ?thesis
      by (auto simp: prefix_def)
  next
    case 2
    then show ?thesis
      by (rule "2.IH"(2))
  qed
next
  case (3 parent n x p vs m md)
  from "3.prems" consider "k = parent @ n" | "k \<in> fst ` set (flat_entries (parent @ n @ ''/'') vs)"
    by auto
  then show ?case
  proof cases
    case 1
    then show ?thesis by simp
  next
    case 2
    then have "prefix (parent @ n @ ''/'') k"
      by (rule "3.IH")
    then show ?thesis
      by (auto simp: prefix_def)
  qed
qed

lemma gcv_writes:
  "get_cookiecutter_values env ch no_input pfx parent v st = Some (Inr st')
     \<Longrightarrow> writes_only (fst ` set (var_entries parent v)) (fst st) (fst st')"
  "branch_loop env ch no_input pfx key vs st = Some (Inr st')
     \<Longrightarrow> writes_only (fst ` set (flat_entries (key @ ''/'') vs)) (fst st) (fst st')"
proof (induction env ch no_input pfx parent v st and env ch no_input pfx key vs st
       arbitrary: st' and st' rule: get_cookiecutter_values_branch_loop.induct)
  case (1 env ch no_input pfx parent n x p vs m md st)
  from "1.prems" obtain st1 where
    store: "store_value env ch no_input pfx parent (Var n x p vs m md) st = Some (Inr st1)" and
    loop: "branch_loop env ch no_input pfx (parent @ n) vs st1 = Some (Inr st')"
    by (auto simp: bind_res_Inr)
  have "writes_only {parent @ n} (fst st) (fst st1)"
    using store_value_writes [OF store] by simp
  moreover have "writes_only (fst ` set (flat_entries ((parent @ n) @ ''/'') vs)) (fst st1) (fst st')"
    using "1.IH" store loop by blast
  ultimately have "writes_only ({parent @ n} \<union> fst ` set (flat_entries ((parent @ n) @ ''/'') vs))
      (fst st) (fst st')"
    by (rule writes_only_trans)
  then show ?case by simp
next
  case (2 env ch no_input pfx key st)
  then show ?case by (simp add: writes_only_refl)
next
  case (3 env ch no_input pfx key branch branches st)
  from "3.prems" obtain cur where cur: "map_of (fst st) key = Some cur"
    by (auto split: option.splits)
  show ?case
  proof (cases "py_eq (matches branch) cur")
    case True
    with "3.prems" cur obtain st1 where
      sub: "get_cookiecutter_values env ch no_input pfx (key @ ''/'') branch st = Some (Inr st1)" and
      rest: "branch_loop env ch no_input pfx key branches st1 = Some (Inr st')"
      by (auto simp: bind_res_Inr)
    have "writes_only (fst ` set (var_entries (key @ ''/'') branch)) (fst st) (fst st1)"
      using "3.IH"(1) cur True sub by blast
    moreover have "writes_only (fst ` set (flat_entries (key @ ''/'') branches)) (fst st1) (fst st')"
      using "3.IH"(2) cur True sub rest by blast
    ultimately have "writes_only (fst ` set (var_entries (key @ ''/'') branch)
        \<union> fst ` set (flat_entries (key @ ''/'') branches)) (fst st) (fst st')"
      by (rule writes_only_trans)
    then show ?thesis by (simp add: image_Un)
  next
    case False
    with "3.prems" cur have "branch_loop env ch no_input pfx key branches st = Some (Inr st')"
      by simp
    then have "writes_only (fst ` set (flat_entries (key @ ''/'') branches)) (fst st) (fst st')"
      using "3.IH"(3) cur False by blast
    then show ?thesis
      by (rule writes_only_mono) auto
  qed
qed


section \<open>Branches\<close>

lemma branch_key_not_written: "key \<notin> fst ` set (var_entries (key @ ''/'') branch)"
proof
  assume "key \<in> fst ` set (var_entries (key @ ''/'') branch)"
  then have "prefix ((key @ ''/'') @ name branch) key"
    by (rule flat_entries_keys(2))
  then have "length ((key @ ''/'') @ name branch) \<le> length key"
    by (rule prefix_length_le)
  then show False by simp
qed

lemma gcv_keeps_parent_value:
  assumes "get_cookiecutter_values env ch no_input pfx (key @ ''/'') branch st = Some (Inr st')"
  shows "map_of (fst st') key = map_of (fst st) key"
  using gcv_writes(1) [OF assms] branch_key_not_written [of key branch]
  unfolding writes_only_def by blast

lemma branch_loop_filter:
  "map_of (fst st) key = Some cur \<Longrightarrow>
   branch_loop env ch no_input pfx key vs st =
     run_steps (get_cookiecutter_values env ch no_input pfx (key @ ''/''))
       (filter (\<lambda>b. py_eq (matches b) cur) vs) st"
proof (induction vs arbitrary: st)
  case Nil
  then show ?case by simp
next
  case (Cons b bs)
  show ?case
  proof (cases "py_eq (matches b) cur")
    case True
    have "bind_res (get_cookiecutter_values env ch no_input pfx (key @ ''/'') b st)
            (branch_loop env ch no_input pfx key bs)
        = bind_res (get_cookiecutter_values env ch no_input pfx (key @ ''/'') b st)
            (run_steps (get_cookiecutter_values env ch no_input pfx (key @ ''/''))
               (filter (\<lambda>b. py_eq (matches b) cur) bs))"
    proof (rule bind_res_cong_result)
      fix st1
      assume "get_cookiecutter_values env ch no_input pfx (key @ ''/'') b st = Some (Inr st1)"
      then have "map_of (fst st1) key = Some cur"
        using gcv_keeps_parent_value Cons.prems by metis
      then show "branch_loop env ch no_input pfx key bs st1
          = run_steps (get_cookiecutter_values env ch no_input pfx (key @ ''/''))
              (filter (\<lambda>b. py_eq (matches b) cur) bs) st1"
        by (rule Cons.IH)
    qed
    then show ?thesis
      using True Cons.prems by simp
  next
    case False
    then show ?thesis
      using Cons.prems Cons.IH [OF Cons.prems] by simp
  qed
qed

lemma dict_branches_key_error:
  assumes "is_dict (val v)" "variables v \<noteq> []" "map_of d (parent @ name v) = None"
  shows "get_cookiecutter_values env ch no_input pfx parent v (d, s) = Some (Inl KeyError)"
proof -
  obtain n x p vs m md where v: "v = Var n x p vs m md"
    by (cases v)
  obtain b bs where vs: "vs = b # bs"
    using assms(2) v by (cases vs) auto
  obtain kvs where x: "x = RDict kvs"
    using assms(1) v by (cases x) auto
  have "store_value env ch no_input pfx parent v (d, s) = Some (Inr (d, s))"
    by (simp add: store_value_def v x)
  then show ?thesis
    using assms(3) by (simp add: v vs)
qed

section \<open>The two passes\<close>

lemma startswith_double: "startswith n ''__'' \<Longrightarrow> startswith n ''_''"
  by (auto simp: startswith_def prefix_def)

lemma var_entries_own_key: "parent @ name v \<in> fst ` set (var_entries parent v)"
  by (cases v) simp

lemma pass1_step_writes:
  assumes "pass1_step env ch no_input sz v (d, c, s) = Some (Inr (d', c', s'))"
  shows "writes_only (fst ` set (var_entries [] v)) d d'"
proof -
  have own: "name v \<in> fst ` set (var_entries [] v)"
    using var_entries_own_key [of "[]" v] by simp
  consider (single) "startswith (name v) ''_'' \<and> \<not> startswith (name v) ''__''"
    | (double) "startswith (name v) ''__''"
    | (unmarked) "\<not> startswith (name v) ''_''"
    by blast
  then show ?thesis
  proof cases
    case single
    then have "d' = od_set (name v) (val v) d"
      using assms by (simp add: pass1_step_def)
    then show ?thesis
      using own by (simp add: writes_only_od_set)
  next
    case double
    then obtain r where "d' = od_set (name v) r d"
      using assms by (auto simp: pass1_step_def bind_sum_Inr)
    then show ?thesis
      using own by (auto simp: writes_only_od_set)
  next
    case unmarked
    then have "\<not> startswith (name v) ''__''"
      using startswith_double by blast
    with unmarked assms obtain pfx where
      "get_cookiecutter_values env ch no_input pfx [] v (d, s) = Some (Inr (d', s'))"
      by (auto simp: pass1_step_def Let_def wrap_undefined_Inr bind_res_Inr split: if_splits)
    then show ?thesis
      using gcv_writes(1) by fastforce
  qed
qed

lemma pass1_run_writes:
  "run_steps (pass1_step env ch no_input sz) vs st = Some (Inr st')
     \<Longrightarrow> writes_only (fst ` set (flat_entries [] vs)) (fst st) (fst st')"
proof (induction vs arbitrary: st)
  case Nil
  then show ?case by (simp add: writes_only_refl)
next
  case (Cons v vs)
  from Cons.prems obtain st1 where
    step: "pass1_step env ch no_input sz v st = Some (Inr st1)" and
    rest: "run_steps (pass1_step env ch no_input sz) vs st1 = Some (Inr st')"
    by (auto simp: bind_res_Inr)
  obtain d c s d1 c1 s1 where st: "st = (d, c, s)" "st1 = (d1, c1, s1)"
    by (cases st, cases st1) auto
  have "writes_only (fst ` set (var_entries [] v)) (fst st) (fst st1)"
    using pass1_step_writes step by (simp add: st)
  then have "writes_only (fst ` set (var_entries [] v) \<union> fst ` set (flat_entries [] vs))
      (fst st) (fst st')"
    using Cons.IH [OF rest] by (rule writes_only_trans)
  then show ?case by (simp add: image_Un)
qed



section \<open>Keys stay distinct\<close>









lemma run_steps_cong:
  "(\<And>v st. v \<in> set vs \<Longrightarrow> step v st = step' v st) \<Longrightarrow> run_steps step vs st = run_steps step' vs st"
proof (induction vs arbitrary: st)
  case Nil
  then show ?case by simp
next
  case (Cons v vs)
  have "run_steps step vs = run_steps step' vs"
    using Cons by auto
  then show ?case
    using Cons.prems by simp
qed

lemma marked_pass1_step:
  assumes "startswith (name v) ''_''"
  shows "pass1_step env ch no_input sz v st = pass1_step env ch' no_input' sz v st"
  using assms by (cases st) (simp add: pass1_step_def)

lemma marked_pass2_step:
  assumes "startswith (name v) ''_''"
  shows "pass2_step env ch no_input sz v st = pass2_step env ch' no_input' sz v st"
proof (cases "startswith (name v) ''__''")
  case True
  then show ?thesis
    by (cases st) (simp add: pass2_step_def)
next
  case False
  then show ?thesis
    using assms by (cases st) (simp add: pass2_step_def)
qed

section \<open>Paths\<close>


section \<open>Documents read back\<close>

lemma insort_by_set: "set (insort_by lt kv xs) = insert kv (set xs)"
  by (induction xs) auto

lemma sort_by_set: "set (sort_by lt xs) = set xs"
  by (induction xs) (simp_all add: sort_by_def insort_by_set)

lemma insort_by_distinct:
  "distinct (map fst (insort_by lt kv xs)) \<longleftrightarrow> fst kv \<notin> fst ` set xs \<and> distinct (map fst xs)"
  by (induction xs) (auto simp: insort_by_set)

lemma sort_by_distinct: "distinct (map fst xs) \<Longrightarrow> distinct (map fst (sort_by lt xs))"
proof (induction xs)
  case Nil
  then show ?case by (simp add: sort_by_def)
next
  case (Cons x xs)
  have "sort_by lt (x # xs) = insort_by lt x (sort_by lt xs)"
    by (simp add: sort_by_def)
  then show ?case
    using Cons by (simp add: insort_by_distinct sort_by_set)
qed

lemma sort_by_map_of: "distinct (map fst xs) \<Longrightarrow> map_of (sort_by lt xs) = map_of xs"
  using map_of_inject_set [of "sort_by lt xs" xs] by (simp add: sort_by_distinct sort_by_set)

lemma map_of_map_values:
  "map_of (map (\<lambda>kv. (fst kv, g (snd kv))) xs) k = map_option g (map_of xs k)"
  by (induction xs) auto

lemma yaml_document_lookup:
  assumes "distinct (map fst context)"
  shows "map_of (yaml_document context) k = map_option yaml_reload (map_of context k)"
proof -
  have "distinct (map fst (map (\<lambda>kv. (fst kv, yaml_reload (snd kv))) context))"
    using assms by (simp add: o_def)
  then show ?thesis
    by (simp add: yaml_document_def sort_by_map_of map_of_map_values)
qed

lemma yaml_document_keys: "fst ` set (yaml_document context) = fst ` set context"
  by (force simp: yaml_document_def sort_by_set)

section \<open>What each pass stores and keeps\<close>








section \<open>The claims\<close>

text \<open>
  C1 (as the code has it). For a variable whose raw value is not a dict,
  \<open>get_cookiecutter_values\<close> stores the variable's value under its flat key and then
  resolves, in order and each by a call of \<open>get_cookiecutter_values\<close> itself with the
  prefix \<open>key/\<close>, exactly the branch children whose \<open>matches\<close> equals the stored value:
  the outcome is the one for the tree with every other branch child removed. The call
  for a branch child whose raw value is a dict stores no value of its own.
\<close>

theorem matching_branches_resolved:
  "(\<not> is_dict (val v) \<longrightarrow>
      get_cookiecutter_values env ch no_input pfx parent v st =
        bind_res (store_value env ch no_input pfx parent v st)
          (\<lambda>st1. case map_of (fst st1) (parent @ name v) of
                    None \<Rightarrow> Some (Inl KeyError)
                  | Some stored \<Rightarrow>
                      run_steps (get_cookiecutter_values env ch no_input pfx (parent @ name v @ ''/''))
                        (filter (\<lambda>b. py_eq (matches b) stored) (variables v)) st1))
   \<and> (is_dict (val b) \<longrightarrow> store_value env ch no_input pfx parent b st = Some (Inr st))"
proof (intro conjI impI)
  assume nd: "\<not> is_dict (val v)"
  let ?key = "parent @ name v"
  let ?loop = "\<lambda>st1. case map_of (fst st1) ?key of
                    None \<Rightarrow> Some (Inl KeyError)
                  | Some stored \<Rightarrow>
                      run_steps (get_cookiecutter_values env ch no_input pfx (parent @ name v @ ''/''))
                        (filter (\<lambda>b. py_eq (matches b) stored) (variables v)) st1"
  have unfold: "get_cookiecutter_values env ch no_input pfx parent v st =
      bind_res (store_value env ch no_input pfx parent v st)
        (branch_loop env ch no_input pfx ?key (variables v))"
    by (cases v) simp
  have "bind_res (store_value env ch no_input pfx parent v st)
          (branch_loop env ch no_input pfx ?key (variables v))
      = bind_res (store_value env ch no_input pfx parent v st) ?loop"
  proof (rule bind_res_cong_result)
    fix st1
    assume "store_value env ch no_input pfx parent v st = Some (Inr st1)"
    then obtain stored where stored: "map_of (fst st1) ?key = Some stored"
      using store_value_stored [of env ch no_input pfx parent v st st1] nd by auto
    show "branch_loop env ch no_input pfx ?key (variables v) st1 = ?loop st1"
      using branch_loop_filter [OF stored, of env ch no_input pfx "variables v"] stored by simp
  qed
  with unfold show "get_cookiecutter_values env ch no_input pfx parent v st =
      bind_res (store_value env ch no_input pfx parent v st) ?loop"
    by simp
next
  assume "is_dict (val b)"
  then obtain kvs where "val b = RDict kvs"
    by (cases "val b") auto
  then show "store_value env ch no_input pfx parent b st = Some (Inr st)"
    by (cases st) (simp add: store_value_def)
qed

theorem matching_branches_resolved_witness:
  "\<not> is_dict (val (Var ''color'' (RStr ''red'') ''color''
       [Var ''shade'' (RStr ''dark'') ''shade'' [] (RStr ''red'') RNone,
        Var ''tint'' (RStr ''pale'') ''tint'' [] (RStr ''blue'') RNone] RNone RNone))
   \<and> is_dict (val (Var ''opts'' (RDict [(RStr ''a'', RStr ''b'')]) ''opts'' [] (RStr ''red'') RNone))
   \<and> get_cookiecutter_values demo_env silent True [] []
       (Var ''color'' (RStr ''red'') ''color''
          [Var ''shade'' (RStr ''dark'') ''shade'' [] (RStr ''red'') RNone,
           Var ''tint'' (RStr ''pale'') ''tint'' [] (RStr ''blue'') RNone] RNone RNone) ([], ())
     = Some (Inr ([(''color'', RStr ''red''), (''color/shade'', RStr ''dark'')], ()))"
  using matching_branches_resolved
    [of "Var ''color'' (RStr ''red'') ''color''
          [Var ''shade'' (RStr ''dark'') ''shade'' [] (RStr ''red'') RNone,
           Var ''tint'' (RStr ''pale'') ''tint'' [] (RStr ''blue'') RNone] RNone RNone"
        demo_env silent True "[]" "[]" "([], ())"
        "Var ''opts'' (RDict [(RStr ''a'', RStr ''b'')]) ''opts'' [] (RStr ''red'') RNone"]
  by (simp add: store_value_def demo_env_def)

text \<open>
  C1 as stated fails: the choice \<open>color\<close> resolves to \<open>red\<close>, its branch child \<open>opts\<close>
  matches \<open>red\<close> and holds a dict, and the two-pass algorithm would store a dict variable
  in its second pass; yet no key \<open>color/opts\<close> enters the context.
\<close>

theorem matching_dict_branch_counterexample:
  "py_eq (matches (Var ''opts'' (RDict [(RStr ''a'', RStr ''b'')]) ''opts'' [] (RStr ''red'') RNone))
     (RStr ''red'')
   \<and> prompt_for_config demo_env silent True
       (Var ''root'' RNone ''root''
          [Var ''color''
             (RList [RDict [(RStr ''name'', RStr ''red'')], RDict [(RStr ''name'', RStr ''blue'')]])
             ''color''
             [Var ''opts'' (RDict [(RStr ''a'', RStr ''b'')]) ''opts'' [] (RStr ''red'') RNone]
             RNone RNone] RNone RNone) ()
     = Some (Inr ([(''color'', RStr ''red'')], ()))"
  by (simp add: prompt_for_config_def pass1_step_def pass2_step_def startswith_def store_value_def
      prompt_choice_for_config_def demo_env_def)







text \<open>
  C4 (as the code has it). Take a context, a dict with the reserved key, and let \<open>dump\<close>
  succeed (the directory of the replay file exists). Then \<open>load\<close> of the same directory
  and template name gives the whole dumped context as the encoding reads it back, every
  top-level key kept, in which the value under the reserved key is replaced by the
  variable tree that \<open>from_dict\<close> builds from it; \<open>load\<close> raises what \<open>from_dict\<close> raises
  when that value is not the document of a tree.
\<close>

theorem load_after_dump:
  assumes "map_of context ''cookiecutter'' = Some c"
      and "distinct (map fst context)"
      and "fst (dump replay_dir template_name context f) = Inr ()"
  shows "load replay_dir template_name (snd (dump replay_dir template_name context f)) =
           bind_sum (from_dict (yaml_reload c))
             (\<lambda>t. Inr (od_set ''cookiecutter'' (Tree t)
                          (map (\<lambda>kv. (fst kv, Plain (snd kv))) (yaml_document context))))
         \<and> fst ` set (yaml_document context) = fst ` set context"
proof -
  let ?f1 = "make_sure_path_exists replay_dir f"
  let ?file = "get_file_name replay_dir template_name"
  have "snd (dump replay_dir template_name context f)
      = ?f1\<lparr>files := (files ?f1)(?file \<mapsto> yaml_document context)\<rparr>"
    using assms(1,3) by (simp add: dump_def Let_def split: sum.splits)
  moreover have "map_of (yaml_document context) ''cookiecutter'' = Some (yaml_reload c)"
    using assms(1,2) by (simp add: yaml_document_lookup)
  ultimately show ?thesis
    by (simp add: load_def Let_def yaml_document_keys)
qed

theorem load_after_dump_witness:
  "fst (dump ''replay'' ''demo''
          [(''cookiecutter'',
            RDict [(RStr ''name'', RStr ''root''),
                   (RStr ''variables'',
                    RList [RDict [(RStr ''value'', RStr ''demo''), (RStr ''name'', RStr ''project'')]])])]
          \<lparr>working_dir = ''/home/u'', dirs = {}, files = Map.empty\<rparr>) = Inr ()
   \<and> load ''replay'' ''demo''
       (snd (dump ''replay'' ''demo''
          [(''cookiecutter'',
            RDict [(RStr ''name'', RStr ''root''),
                   (RStr ''variables'',
                    RList [RDict [(RStr ''value'', RStr ''demo''), (RStr ''name'', RStr ''project'')]])])]
          \<lparr>working_dir = ''/home/u'', dirs = {}, files = Map.empty\<rparr>))
     = Inr [(''cookiecutter'',
             Tree (Var (RStr ''root'') RNone (RStr ''root'')
                     [Var (RStr ''project'') (RStr ''demo'') (RStr ''project'') [] RNone RNone]
                     RNone RNone))]"
proof -
  let ?c = "RDict [(RStr ''name'', RStr ''root''),
                   (RStr ''variables'',
                    RList [RDict [(RStr ''value'', RStr ''demo''), (RStr ''name'', RStr ''project'')]])]"
  let ?f = "\<lparr>working_dir = ''/home/u'', dirs = {}, files = Map.empty\<rparr>"
  have h1: "map_of [(''cookiecutter'', ?c)] ''cookiecutter'' = Some ?c"
    by simp
  have h2: "distinct (map fst [(''cookiecutter'', ?c)])"
    by simp
  have h3: "fst (dump ''replay'' ''demo'' [(''cookiecutter'', ?c)] ?f) = Inr ()"
    by (simp add: dump_def make_sure_path_exists_def open_for_writing_def abs_path_def resolve_def
        path_root_def path_parts_def path_str_def get_file_name_def os_path_join_def startswith_def
        endswith_def suffix_to_prefix Let_def)
  have r: "yaml_reload ?c = RDict [(RStr ''name'', RStr ''root''),
                   (RStr ''variables'',
                    RList [RDict [(RStr ''name'', RStr ''project''), (RStr ''value'', RStr ''demo'')]])]"
    by (simp add: sort_items_def sort_by_def)
  have t: "from_dict (yaml_reload ?c)
      = Inr (Var (RStr ''root'') RNone (RStr ''root'')
               [Var (RStr ''project'') (RStr ''demo'') (RStr ''project'') [] RNone RNone] RNone RNone)"
    unfolding r by (simp add: dict_get_def Let_def)
  show ?thesis
    using h3 load_after_dump [OF h1 h2 h3] t
    by (simp add: yaml_document_def sort_by_def sort_items_def)
qed

text \<open>
  C4 as stated fails: the context has a second top-level key, \<open>_checkout\<close>, and the
  loaded context still has it; the value under the reserved key comes back as a
  variable tree, not as the mapping that was dumped.
\<close>

theorem load_keeps_other_keys_counterexample:
  "load ''replay'' ''demo''
     (snd (dump ''replay'' ''demo''
        [(''cookiecutter'', RDict [(RStr ''name'', RStr ''root'')]), (''_checkout'', RStr ''main'')]
        \<lparr>working_dir = ''/home/u'', dirs = {}, files = Map.empty\<rparr>))
   = Inr [(''_checkout'', Plain (RStr ''main'')),
          (''cookiecutter'',
           Tree (Var (RStr ''root'') RNone (RStr ''root'') [] RNone RNone))]"
  by (simp add: dump_def load_def make_sure_path_exists_def open_for_writing_def abs_path_def
      resolve_def path_root_def path_parts_def path_str_def get_file_name_def os_path_join_def
      startswith_def endswith_def suffix_to_prefix Let_def dict_get_def yaml_document_def
      sort_by_def sort_items_def)




text \<open>
  C6 (as the code has it). For a top-level variable, one that \<open>prompt_for_config\<close>
  iterates over: when the name begins with a single marker, the first pass stores the
  raw value as it is and the second pass leaves the context alone; when the name begins
  with the double marker, the first pass stores the rendering of the raw value against
  the context so far, and the second pass stores it again when the raw value is a dict.
  None of these steps depends on the mode or on the operator, and the terminal session
  is returned as it was. A tree whose top-level names all begin with the marker resolves
  in interactive mode to what it resolves to without input.
\<close>

theorem marked_variables_not_prompted:
  "(startswith (name v) ''_'' \<and> \<not> startswith (name v) ''__'' \<longrightarrow>
      pass1_step env ch no_input sz v (d, c, s) = Some (Inr (od_set (name v) (val v) d, c, s))
      \<and> pass2_step env ch no_input sz v (d, c, s) = Some (Inr (d, c, s)))
   \<and> (startswith (name v) ''__'' \<longrightarrow>
      pass1_step env ch no_input sz v (d, c, s) =
        Some (bind_sum (render_variable env (val v) d) (\<lambda>r. Inr (od_set (name v) r d, c, s)))
      \<and> pass2_step env ch no_input sz v (d, c, s) =
        (if is_dict (val v) then
           wrap_undefined (name v)
             (Some (bind_sum (render_variable env (val v) d)
                      (\<lambda>r. Inr (od_set (name v) r d, c + 1, s))))
         else Some (Inr (d, c, s))))
   \<and> ((\<forall>u \<in> set (variables root). startswith (name u) ''_'') \<longrightarrow>
      prompt_for_config env ch no_input root s = prompt_for_config env ch' True root s)"
proof (intro conjI impI)
  assume "\<forall>u \<in> set (variables root). startswith (name u) ''_''"
  then have "run_steps (pass1_step env ch no_input sz') (variables root)
               = run_steps (pass1_step env ch' True sz') (variables root)"
        and "run_steps (pass2_step env ch no_input sz') (variables root)
               = run_steps (pass2_step env ch' True sz') (variables root)" for sz'
    using run_steps_cong [of "variables root" "pass1_step env ch no_input sz'" "pass1_step env ch' True sz'"]
      run_steps_cong [of "variables root" "pass2_step env ch no_input sz'" "pass2_step env ch' True sz'"]
      marked_pass1_step [of _ env ch no_input sz' _ ch' True]
      marked_pass2_step [of _ env ch no_input sz' _ ch' True]
    by blast+
  then show "prompt_for_config env ch no_input root s = prompt_for_config env ch' True root s"
    by (simp add: prompt_for_config_def)
qed (auto simp: pass1_step_def pass2_step_def Let_def dest: startswith_double)

theorem marked_variables_not_prompted_witness:
  "startswith ''_p'' ''_'' \<and> \<not> startswith ''_p'' ''__'' \<and> startswith ''__d'' ''__''
   \<and> pass1_step demo_env recorder False 1
        (Var ''_p'' (RStr ''{{ cookiecutter|length }}'') ''_p'' [] RNone RNone) ([], 0, [])
      = Some (Inr ([(''_p'', RStr ''{{ cookiecutter|length }}'')], 0, []))
   \<and> pass1_step demo_env recorder False 1
        (Var ''__d'' (RStr ''{{ cookiecutter|length }}'') ''__d'' [] RNone RNone) ([], 0, [])
      = Some (Inr ([(''__d'', RStr ''0'')], 0, []))
   \<and> prompt_for_config demo_env recorder False
        (Var ''root'' RNone ''root''
           [Var ''_p'' (RStr ''{{ cookiecutter|length }}'') ''_p'' [] RNone RNone,
            Var ''__d'' (RStr ''{{ cookiecutter|length }}'') ''__d'' [] RNone RNone] RNone RNone) []
      = Some (Inr ([(''_p'', RStr ''{{ cookiecutter|length }}''), (''__d'', RStr ''1'')], []))"
  using marked_variables_not_prompted
    [of "Var ''_p'' (RStr ''{{ cookiecutter|length }}'') ''_p'' [] RNone RNone"
        demo_env recorder False 1 "[]" 0 "[]"
        "Var ''root'' RNone ''root''
           [Var ''_p'' (RStr ''{{ cookiecutter|length }}'') ''_p'' [] RNone RNone,
            Var ''__d'' (RStr ''{{ cookiecutter|length }}'') ''__d'' [] RNone RNone] RNone RNone"
        recorder]
    marked_variables_not_prompted
    [of "Var ''__d'' (RStr ''{{ cookiecutter|length }}'') ''__d'' [] RNone RNone"
        demo_env recorder False 1 "[]" 0 "[]"
        "Var ''root'' RNone ''root'' [] RNone RNone" recorder]
  by (simp add: startswith_def demo_env_def prompt_for_config_def pass1_step_def pass2_step_def)

text \<open>
  C6 as stated fails below the top level: \<open>_note\<close> is a branch child with a private
  name, and it is rendered (the text \<open>1\<close> is stored, not its raw value) and, in
  interactive mode, the operator is asked for it.
\<close>

theorem private_branch_prompted_counterexample:
  "prompt_for_config demo_env recorder False
     (Var ''root'' RNone ''root''
        [Var ''kind'' (RStr ''a'') ''kind''
           [Var ''_note'' (RStr ''{{ cookiecutter|length }}'') ''_note'' [] (RStr ''a'') RNone]
           RNone RNone] RNone RNone) []
   = Some (Inr ([(''kind'', RStr ''a''), (''kind/_note'', RStr ''1'')],
                [''  [dim][1/1][/] kind'', ''  [dim][1/1][/] _note'']))"
  by (simp add: prompt_for_config_def pass1_step_def pass2_step_def startswith_def store_value_def
      demo_env_def recorder_def position_prefix_def question_for_def read_user_variable.simps)

text \<open>
  C7. \<open>get_file_name\<close> joins the directory with the template name plus the primary
  extension \<open>.yaml\<close>; it falls back to the alternate extension \<open>.json\<close> exactly when the
  name already ends with \<open>.yaml\<close>, the one suffix the function recognises. The file
  name it returns ends with the extension chosen.
\<close>

theorem get_file_name_extension:
  "get_file_name replay_dir template_name =
     os_path_join replay_dir
       (template_name @ (if endswith template_name ''.yaml'' then ''.json'' else ''.yaml''))
   \<and> endswith (get_file_name replay_dir template_name)
         (if endswith template_name ''.yaml'' then ''.json'' else ''.yaml'')"
proof -
  let ?ext = "if endswith template_name ''.yaml'' then ''.json'' else ''.yaml''"
  have eq: "get_file_name replay_dir template_name = os_path_join replay_dir (template_name @ ?ext)"
    by (simp add: get_file_name_def)
  have "suffix ?ext (template_name @ ?ext)"
    by (rule suffixI) simp
  moreover have "suffix (template_name @ ?ext) (os_path_join replay_dir (template_name @ ?ext))"
    by (simp add: os_path_join_def suffix_def)
  ultimately have "endswith (os_path_join replay_dir (template_name @ ?ext)) ?ext"
    unfolding endswith_def by (rule suffix_order.trans)
  with eq show ?thesis
    by simp
qed

theorem get_file_name_extension_witness:
  "get_file_name ''replay'' ''demo'' = ''replay/demo.yaml''
   \<and> get_file_name ''replay'' ''demo.yaml'' = ''replay/demo.yaml.json''
   \<and> get_file_name ''replay/'' ''demo.json'' = ''replay/demo.json.yaml''"
  using get_file_name_extension [of "''replay''" "''demo''"]
    get_file_name_extension [of "''replay''" "''demo.yaml''"]
    get_file_name_extension [of "''replay/''" "''demo.json''"]
  by (simp add: os_path_join_def startswith_def endswith_def suffix_to_prefix)

text \<open>
  C8. The configuration errors are raised at once, whatever the operator would answer:
  \<open>dump\<close> raises \<open>ValueError\<close> and writes no file when the context lacks the reserved
  key, \<open>load\<close> raises \<open>ValueError\<close> when the document it reads lacks it,
  \<open>read_user_choice\<close> raises \<open>ValueError\<close> on an empty list of options, and
  \<open>read_user_dict\<close> raises \<open>TypeError\<close> when the default is not a dict.
\<close>

theorem configuration_errors_raised:
  "(map_of context ''cookiecutter'' = None \<longrightarrow>
      fst (dump replay_dir template_name context f) = Inl ValueError
      \<and> files (snd (dump replay_dir template_name context f)) = files f)
   \<and> (files f (get_file_name replay_dir template_name) = Some doc
        \<and> map_of doc ''cookiecutter'' = None \<longrightarrow>
      load replay_dir template_name f = Inl ValueError)
   \<and> read_user_choice ch var_name [] prompts pfx s = Inl ValueError
   \<and> (\<not> is_dict default_value \<longrightarrow>
      read_user_dict ch var_name default_value prompts' pfx s = Inl TypeError)"
  by (simp add: dump_def load_def make_sure_path_exists_def Let_def read_user_choice_def
      read_user_dict_def)

theorem configuration_errors_raised_witness:
  "map_of [(''project'', RStr ''demo'')] ''cookiecutter'' = None
   \<and> fst (dump ''replay'' ''demo'' [(''project'', RStr ''demo'')] \<lparr>working_dir = ''/home/u'', dirs = {}, files = Map.empty\<rparr>)
       = Inl ValueError
   \<and> load ''replay'' ''demo''
       \<lparr>working_dir = ''/home/u'', dirs = {''/home/u/replay''}, files = [''replay/demo.yaml'' \<mapsto> [(''project'', RStr ''demo'')]]\<rparr>
       = Inl ValueError
   \<and> \<not> is_dict (RStr ''demo'')
   \<and> read_user_dict silent ''files'' (RStr ''demo'') [] [] () = Inl TypeError"
  using configuration_errors_raised
    [of "[(''project'', RStr ''demo'')]" "''replay''" "''demo''" "\<lparr>working_dir = ''/home/u'', dirs = {}, files = Map.empty\<rparr>"
        "[(''project'', RStr ''demo'')]" silent "''x''" "[]" "[]" "()" "RStr ''demo''" "[]"]
    configuration_errors_raised
    [of "[(''project'', RStr ''demo'')]" "''replay''" "''demo''"
        "\<lparr>working_dir = ''/home/u'', dirs = {''/home/u/replay''}, files = [''replay/demo.yaml'' \<mapsto> [(''project'', RStr ''demo'')]]\<rparr>"
        "[(''project'', RStr ''demo'')]" silent "''files''" "[]" "[]" "()" "RStr ''demo''" "[]"]
  by (simp add: get_file_name_def os_path_join_def startswith_def endswith_def suffix_to_prefix
      Let_def)

text \<open>
  C9 (as the code has it). Called on a variable whose raw value is a dict and whose branch
  list is not empty, \<open>get_cookiecutter_values\<close> stores nothing and reads its flat key for
  the first branch: when the context holds no value under that key, it raises
  \<open>KeyError\<close>. So \<open>prompt_for_config\<close> returns no context for a tree that has such a
  variable at top level, under a name that does not begin with the marker and is not a
  flat key of a variable declared before it.
\<close>

theorem dict_with_branches_fails:
  assumes "is_dict (val v)" and "variables v \<noteq> []"
  shows "(map_of d (parent @ name v) = None \<longrightarrow>
            get_cookiecutter_values env ch no_input pfx parent v (d, s) = Some (Inl KeyError))
         \<and> (variables root = pre @ v # post \<and> \<not> startswith (name v) ''_''
              \<and> name v \<notin> fst ` set (flat_entries [] pre) \<longrightarrow>
            (\<forall>r. prompt_for_config env ch no_input root s \<noteq> Some (Inr r)))"
proof (intro conjI impI allI)
  assume "map_of d (parent @ name v) = None"
  with assms show "get_cookiecutter_values env ch no_input pfx parent v (d, s) = Some (Inl KeyError)"
    by (rule dict_branches_key_error)
next
  fix r
  assume a: "variables root = pre @ v # post \<and> \<not> startswith (name v) ''_''
      \<and> name v \<notin> fst ` set (flat_entries [] pre)"
  let ?sz = "length (filter (\<lambda>v. \<not> startswith (name v) ''_'') (variables root))"
  let ?step = "pass1_step env ch no_input ?sz"
  show "prompt_for_config env ch no_input root s \<noteq> Some (Inr r)"
  proof
    assume "prompt_for_config env ch no_input root s = Some (Inr r)"
    then obtain st1 where "run_steps ?step (pre @ v # post) ([], 0, s) = Some (Inr st1)"
      using a by (auto simp: prompt_for_config_def Let_def bind_res_Inr)
    then obtain st0 st0' where
      before: "run_steps ?step pre ([], 0, s) = Some (Inr st0)" and
      step: "?step v st0 = Some (Inr st0')"
      by (auto simp: run_steps_append bind_res_Inr)
    obtain d0 c0 s0 where st0: "st0 = (d0, c0, s0)"
      by (cases st0)
    have "fst ` set d0 \<subseteq> fst ` set (flat_entries [] pre)"
      using pass1_run_writes [OF before] by (simp add: writes_only_def st0)
    then have "name v \<notin> fst ` set d0"
      using a by blast
    then have absent: "map_of d0 ([] @ name v) = None"
      by (simp add: map_of_eq_None_iff)
    have "\<not> startswith (name v) ''__''"
      using a startswith_double by blast
    then have "?step v st0 = Some (Inl KeyError)"
      using a assms(1) dict_branches_key_error [OF assms absent, of env ch no_input "[]" s0]
      by (simp add: pass1_step_def st0)
    with step show False by simp
  qed
qed

theorem dict_with_branches_fails_witness:
  "is_dict (val (Var ''files'' (RDict [(RStr ''a'', RStr ''b'')]) ''files''
                   [Var ''mode'' (RStr ''x'') ''mode'' [] RNone RNone] RNone RNone))
   \<and> variables (Var ''files'' (RDict [(RStr ''a'', RStr ''b'')]) ''files''
                   [Var ''mode'' (RStr ''x'') ''mode'' [] RNone RNone] RNone RNone) \<noteq> []
   \<and> get_cookiecutter_values demo_env silent True [] []
        (Var ''files'' (RDict [(RStr ''a'', RStr ''b'')]) ''files''
           [Var ''mode'' (RStr ''x'') ''mode'' [] RNone RNone] RNone RNone)
        ([(''project'', RStr ''demo'')], ()) = Some (Inl KeyError)
   \<and> prompt_for_config demo_env silent True
        (Var ''root'' RNone ''root''
           [Var ''project'' (RStr ''demo'') ''project'' [] RNone RNone,
            Var ''files'' (RDict [(RStr ''a'', RStr ''b'')]) ''files''
              [Var ''mode'' (RStr ''x'') ''mode'' [] RNone RNone] RNone RNone] RNone RNone) ()
       \<noteq> Some (Inr ([(''project'', RStr ''demo'')], ()))"
  using dict_with_branches_fails
    [of "Var ''files'' (RDict [(RStr ''a'', RStr ''b'')]) ''files''
           [Var ''mode'' (RStr ''x'') ''mode'' [] RNone RNone] RNone RNone"
        "[(''project'', RStr ''demo'')]" "[]" demo_env silent True "[]" "()"
        "Var ''root'' RNone ''root''
           [Var ''project'' (RStr ''demo'') ''project'' [] RNone RNone,
            Var ''files'' (RDict [(RStr ''a'', RStr ''b'')]) ''files''
              [Var ''mode'' (RStr ''x'') ''mode'' [] RNone RNone] RNone RNone] RNone RNone"
        "[Var ''project'' (RStr ''demo'') ''project'' [] RNone RNone]" "[]"]
  by (simp add: startswith_def)

text \<open>
  C9 as stated fails: a tree can hold a dict variable with branches and still resolve.
  Here the variable is private, so \<open>prompt_for_config\<close> copies it and never calls
  \<open>get_cookiecutter_values\<close> on it.
\<close>

theorem private_dict_with_branches_counterexample:
  "prompt_for_config demo_env silent True
     (Var ''root'' RNone ''root''
        [Var ''_files'' (RDict [(RStr ''a'', RStr ''b'')]) ''_files''
           [Var ''mode'' (RStr ''x'') ''mode'' [] RNone RNone] RNone RNone] RNone RNone) ()
   = Some (Inr ([(''_files'', RDict [(RStr ''a'', RStr ''b'')])], ()))"
  by (simp add: prompt_for_config_def pass1_step_def pass2_step_def startswith_def)

text \<open>
  C10. \<open>to_cookiecutter_dict\<close> has an entry for the path of every descendant and for
  nothing else, branch children included whatever their \<open>matches\<close> value, and every
  entry maps the path of a descendant to that descendant's raw value; when the paths of
  the descendants are pairwise different, the mapping is exactly the list of the
  descendants in pre-order, one entry each.
\<close>

theorem to_cookiecutter_dict_flat:
  "set (map fst (to_cookiecutter_dict t parent)) = set (map fst (flat_entries parent (variables t)))
   \<and> set (to_cookiecutter_dict t parent) \<subseteq> set (flat_entries parent (variables t))
   \<and> (distinct (map fst (flat_entries parent (variables t))) \<longrightarrow>
        to_cookiecutter_dict t parent = flat_entries parent (variables t))"
  using tcd_key_set(1) [of t parent] tcd_entries(1) [of t parent] tcd_distinct(1) [of parent t]
  by simp

theorem to_cookiecutter_dict_flat_witness:
  "distinct (map fst (flat_entries ''''
      (variables (Var ''root'' RNone ''root''
         [Var ''color'' (RStr ''red'') ''color''
            [Var ''shade'' (RStr ''dark'') ''shade'' [] (RStr ''red'') RNone,
             Var ''tint'' (RStr ''pale'') ''tint'' [] (RStr ''blue'') RNone] RNone RNone,
          Var ''size'' (RBool True) ''size'' [] RNone RNone] RNone RNone))))
   \<and> to_cookiecutter_dict
       (Var ''root'' RNone ''root''
         [Var ''color'' (RStr ''red'') ''color''
            [Var ''shade'' (RStr ''dark'') ''shade'' [] (RStr ''red'') RNone,
             Var ''tint'' (RStr ''pale'') ''tint'' [] (RStr ''blue'') RNone] RNone RNone,
          Var ''size'' (RBool True) ''size'' [] RNone RNone] RNone RNone) ''''
     = [(''color'', RStr ''red''), (''color/shade'', RStr ''dark''),
        (''color/tint'', RStr ''pale''), (''size'', RBool True)]"
  using to_cookiecutter_dict_flat
    [of "Var ''root'' RNone ''root''
         [Var ''color'' (RStr ''red'') ''color''
            [Var ''shade'' (RStr ''dark'') ''shade'' [] (RStr ''red'') RNone,
             Var ''tint'' (RStr ''pale'') ''tint'' [] (RStr ''blue'') RNone] RNone RNone,
          Var ''size'' (RBool True) ''size'' [] RNone RNone] RNone RNone" "''''"]
  by simp

end
